theory Spec2Isabelle
  imports Main
begin

section \<open>Types and values of the coerce package\<close>

text \<open>
  The Go package \<^verbatim>\<open>coerce\<close> (file coerce.go) copies the values of a
  \<^verbatim>\<open>map[string]interface{}\<close> into the fields of a struct, converting strings and
  floats on the way. The embedding covers destinations and sources of the builtin integer,
  unsigned, float, string and bool types, \<^verbatim>\<open>time.Duration\<close>, and slices of these.
  The kinds \<^verbatim>\<open>reflect.Int\<close>, \<^verbatim>\<open>reflect.Int8\<close>, ... are written \<open>IntK\<close>, \<open>Int8K\<close>, ...,
  which leaves \<open>Int64\<close>, \<open>Uint64\<close>, ... to the package's functions of these names.
  Interface-typed and \<^verbatim>\<open>reflect.Value\<close>-typed fields, pointers, maps and structs as
  values are outside it. \<^verbatim>\<open>int\<close> and \<^verbatim>\<open>uint\<close> are taken as 64 bits wide.
\<close>

datatype ikind = IntK | Int8K | Int16K | Int32K | Int64K
datatype ukind = UintK | Uint8K | Uint16K | Uint32K | Uint64K

datatype gotype =
    TInt ikind
  | TUint ukind
  | TFloat32
  | TFloat64
  | TString
  | TBool
  | TDuration
  | TSlice gotype

text \<open>\<^verbatim>\<open>reflect.Type.Kind\<close>: \<^verbatim>\<open>time.Duration\<close> is a named type of kind Int64.\<close>

datatype kind = KInt ikind | KUint ukind | KFloat32 | KFloat64 | KString | KBool | KSlice

fun Kind :: "gotype \<Rightarrow> kind" where
  "Kind (TInt k) = KInt k"
| "Kind (TUint k) = KUint k"
| "Kind TFloat32 = KFloat32"
| "Kind TFloat64 = KFloat64"
| "Kind TString = KString"
| "Kind TBool = KBool"
| "Kind TDuration = KInt Int64K"
| "Kind (TSlice t) = KSlice"

fun ibits :: "ikind \<Rightarrow> nat" where
  "ibits IntK = 64" | "ibits Int8K = 8" | "ibits Int16K = 16" | "ibits Int32K = 32" | "ibits Int64K = 64"

fun ubits :: "ukind \<Rightarrow> nat" where
  "ubits UintK = 64" | "ubits Uint8K = 8" | "ubits Uint16K = 16" | "ubits Uint32K = 32" | "ubits Uint64K = 64"

fun ikind_String :: "ikind \<Rightarrow> string" where
  "ikind_String IntK = ''int''" | "ikind_String Int8K = ''int8''" | "ikind_String Int16K = ''int16''"
| "ikind_String Int32K = ''int32''" | "ikind_String Int64K = ''int64''"

fun ukind_String :: "ukind \<Rightarrow> string" where
  "ukind_String UintK = ''uint''" | "ukind_String Uint8K = ''uint8''" | "ukind_String Uint16K = ''uint16''"
| "ukind_String Uint32K = ''uint32''" | "ukind_String Uint64K = ''uint64''"

text \<open>\<^verbatim>\<open>reflect.Type.String\<close>, which \<^verbatim>\<open>%v\<close> prints for a type.\<close>

fun type_String :: "gotype \<Rightarrow> string" where
  "type_String (TInt k) = ikind_String k"
| "type_String (TUint k) = ukind_String k"
| "type_String TFloat32 = ''float32''"
| "type_String TFloat64 = ''float64''"
| "type_String TString = ''string''"
| "type_String TBool = ''bool''"
| "type_String TDuration = ''time.Duration''"
| "type_String (TSlice t) = ''[]'' @ type_String t"

text \<open>
  Among the modelled types (none is an interface, and the only named non-builtin type is
  \<^verbatim>\<open>time.Duration\<close>) a value is assignable exactly when the types are identical.
\<close>

definition AssignableTo :: "gotype \<Rightarrow> gotype \<Rightarrow> bool" where
  "AssignableTo t1 t2 = (t1 = t2)"

text \<open>
  Values. Integers carry their mathematical value; the conversions to a width are written
  out below. The payload \<open>'f\<close> of a float is left abstract: the floating-point routines
  of the standard library are parameters of the model (record \<open>lib\<close>). A slice carries
  its element type; a nil slice and an empty one are not told apart.
\<close>

datatype 'f val =
    VInt ikind int
  | VUint ukind int
  | VFloat32 'f
  | VFloat64 'f
  | VString string
  | VBool bool
  | VDuration int
  | VSlice gotype "'f val list"

text \<open>An \<^verbatim>\<open>interface{}\<close>: nil, or a value of a concrete type.\<close>

datatype 'f iface = NilI | Iface "'f val"

fun TypeOf :: "'f val \<Rightarrow> gotype" where
  "TypeOf (VInt k n) = TInt k"
| "TypeOf (VUint k n) = TUint k"
| "TypeOf (VFloat32 x) = TFloat32"
| "TypeOf (VFloat64 x) = TFloat64"
| "TypeOf (VString s) = TString"
| "TypeOf (VBool b) = TBool"
| "TypeOf (VDuration d) = TDuration"
| "TypeOf (VSlice t vs) = TSlice t"

text \<open>The conversions \<^verbatim>\<open>intN(x)\<close> and \<^verbatim>\<open>uintN(x)\<close> between integer types: two's complement wrap-around.\<close>

definition int_wrap :: "nat \<Rightarrow> int \<Rightarrow> int" where
  "int_wrap b x = (x + 2 ^ (b - 1)) mod 2 ^ b - 2 ^ (b - 1)"

definition uint_wrap :: "nat \<Rightarrow> int \<Rightarrow> int" where
  "uint_wrap b x = x mod 2 ^ b"

text \<open>Errors: \<^verbatim>\<open>*strconv.NumError\<close> (function, input, cause) and plain message errors.\<close>

datatype errkind = ErrSyntax | ErrRange

datatype error = NumError string string errkind | ErrorString string

text \<open>
  A call returns or panics (index or slice bound out of range, invalid \<^verbatim>\<open>reflect.Value\<close>).
  The target of \<^verbatim>\<open>Struct\<close> and of \<^verbatim>\<open>Var\<close> is written in place, so what a call had
  written when it panicked stays written: a panic carries the target as the call leaves it.
  The functions that compute a value, or write only as their last step, have nothing to
  carry; for them the panic is \<open>Panics\<close>.
\<close>

datatype ('a, 's) outcome = Returns 'a | PanicsWith 's

abbreviation Panics :: "('a, unit) outcome" where
  "Panics \<equiv> PanicsWith ()"

text \<open>
  The routines of the Go standard library that the package calls and that are not modelled
  here: floating point, durations, the quoting of a string in an error message, and
  \<^verbatim>\<open>fmt.Sprintf\<close> of a format with one string operand. \<open>float_mul_int64 L f m\<close> stands for
  \<^verbatim>\<open>int64(f * float64(m))\<close>, \<open>float_int64 L f\<close> for \<^verbatim>\<open>int64(f)\<close>, \<open>format_float L bits f\<close>
  for what \<^verbatim>\<open>%v\<close> prints for a float.
\<close>

record 'f lib =
  ParseFloat :: "string \<Rightarrow> nat \<Rightarrow> error + 'f"
  float_mul_int64 :: "'f \<Rightarrow> int \<Rightarrow> int"
  float_int64 :: "'f \<Rightarrow> int"
  float_uint64 :: "'f \<Rightarrow> int"
  format_float :: "nat \<Rightarrow> 'f \<Rightarrow> string"
  ParseDuration :: "string \<Rightarrow> error + int"
  Duration_String :: "int \<Rightarrow> string"
  Quote :: "string \<Rightarrow> string"
  Sprintf :: "string \<Rightarrow> string \<Rightarrow> string"
  float_zero :: "'f"

section \<open>strconv.ParseUint and strconv.ParseInt in base 10\<close>

definition is_digit :: "char \<Rightarrow> bool" where
  "is_digit c = (c \<in> set ''0123456789'')"

definition digit_val :: "char \<Rightarrow> nat" where
  "digit_val c = of_char c - 48"

text \<open>
  The digit loop of \<^verbatim>\<open>ParseUint\<close>: a byte that is not a decimal digit is a syntax error;
  \<open>n \<ge> cutoff\<close> (where \<open>n * 10\<close> would overflow 64 bits) or a sum beyond \<open>maxVal\<close>
  is a range error, reported where it happens, before the rest of the text is read.
\<close>

fun parse_digits :: "nat \<Rightarrow> nat \<Rightarrow> string \<Rightarrow> errkind + nat" where
  "parse_digits maxVal n [] = Inr n"
| "parse_digits maxVal n (c # cs) =
     (if \<not> is_digit c then Inl ErrSyntax
      else if n \<ge> (2 ^ 64 - 1) div 10 + 1 then Inl ErrRange
      else (let n1 = (n * 10 + digit_val c) mod 2 ^ 64
            in if n1 < n * 10 \<or> n1 > maxVal then Inl ErrRange
               else parse_digits maxVal n1 cs))"

definition ParseUint :: "string \<Rightarrow> nat \<Rightarrow> error + int" where
  "ParseUint s bitSize =
     (if s = [] then Inl (NumError ''ParseUint'' s ErrSyntax)
      else case parse_digits (2 ^ bitSize - 1) 0 s of
             Inl k \<Rightarrow> Inl (NumError ''ParseUint'' s k)
           | Inr n \<Rightarrow> Inr (int n))"

text \<open>
  \<^verbatim>\<open>ParseInt\<close> takes off one leading sign and reads the rest with
  \<^verbatim>\<open>ParseUint(s, base, bitSize)\<close>. A syntax error there is returned; a range error there
  leaves \<open>un\<close> at the largest unsigned value of the width and goes on to the check of the
  magnitude against \<open>2 ^ (bitSize - 1)\<close>, which reports it.
\<close>

definition ParseInt :: "string \<Rightarrow> nat \<Rightarrow> error + int" where
  "ParseInt s0 bitSize =
     (if s0 = [] then Inl (NumError ''ParseInt'' s0 ErrSyntax)
      else
        let neg = (hd s0 = CHR ''-'');
            s = (if hd s0 = CHR ''+'' \<or> hd s0 = CHR ''-'' then tl s0 else s0);
            cutoff = (2::nat) ^ (bitSize - 1)
        in if s = [] then Inl (NumError ''ParseInt'' s0 ErrSyntax)
           else let r = parse_digits (2 ^ bitSize - 1) 0 s
                in if r = Inl ErrSyntax then Inl (NumError ''ParseInt'' s0 ErrSyntax)
                   else let un = (case r of Inr n \<Rightarrow> n | Inl _ \<Rightarrow> 2 ^ bitSize - 1)
                        in if \<not> neg \<and> un \<ge> cutoff then Inl (NumError ''ParseInt'' s0 ErrRange)
                           else if neg \<and> un > cutoff then Inl (NumError ''ParseInt'' s0 ErrRange)
                           else Inr (if neg then - int un else int un))"

section \<open>getBytes\<close>

text \<open>
  The switch on \<^verbatim>\<open>strings.ToUpper(string(s[len(s)-1]))\<close>: the last byte, upper-cased, is
  compared with B, K, M, G and T; the constants are \<open>b = 1\<close>, \<open>k = b << 10\<close> and so on.
\<close>

definition unit_mult :: "char \<Rightarrow> int option" where
  "unit_mult c =
     (if c = CHR ''B'' \<or> c = CHR ''b'' then Some 1
      else if c = CHR ''K'' \<or> c = CHR ''k'' then Some (2 ^ 10)
      else if c = CHR ''M'' \<or> c = CHR ''m'' then Some (2 ^ 20)
      else if c = CHR ''G'' \<or> c = CHR ''g'' then Some (2 ^ 30)
      else if c = CHR ''T'' \<or> c = CHR ''t'' then Some (2 ^ 40)
      else None)"

text \<open>
  \<^verbatim>\<open>s[len(s)-1]\<close> panics on the empty string. \<^verbatim>\<open>ival * mult\<close> is a product of
  \<^verbatim>\<open>int64\<close> values and wraps; \<^verbatim>\<open>int64(fval * float64(mult))\<close> is the library's.
\<close>

definition getBytes :: "'f lib \<Rightarrow> string \<Rightarrow> error \<Rightarrow> (error + int, unit) outcome" where
  "getBytes L s err =
     (if s = [] then Panics
      else case unit_mult (last s) of
             None \<Rightarrow> Returns (Inl err)
           | Some mult \<Rightarrow>
               (case ParseInt (butlast s) 64 of
                  Inr ival \<Rightarrow> Returns (Inr (int_wrap 64 (ival * mult)))
                | Inl _ \<Rightarrow>
                    (case ParseFloat L (butlast s) 64 of
                       Inl e \<Rightarrow> Returns (Inl e)
                     | Inr fval \<Rightarrow> Returns (Inr (int_wrap 64 (float_mul_int64 L fval mult))))))"

section \<open>unmarshall\<close>

text \<open>\<^verbatim>\<open>err.Error()\<close>.\<close>

fun Error :: "'f lib \<Rightarrow> error \<Rightarrow> string" where
  "Error L (NumError fn num k) =
     ''strconv.'' @ fn @ '': parsing '' @ Quote L num @ '': '' @
       (case k of ErrSyntax \<Rightarrow> ''invalid syntax'' | ErrRange \<Rightarrow> ''value out of range'')"
| "Error L (ErrorString m) = m"

text \<open>Decimal digits of a number, as \<^verbatim>\<open>%v\<close> prints an integer.\<close>

definition digit_char :: "nat \<Rightarrow> char" where
  "digit_char d = ''0123456789'' ! d"

fun show_nat :: "nat \<Rightarrow> string" where
  "show_nat n =
     (if n < 10 then [digit_char n] else show_nat (n div 10) @ [digit_char (n mod 10)])"

definition show_int :: "int \<Rightarrow> string" where
  "show_int i = (if i < 0 then CHR ''-'' # show_nat (nat (- i)) else show_nat (nat i))"

fun join_with :: "string \<Rightarrow> string list \<Rightarrow> string" where
  "join_with sep [] = []"
| "join_with sep [x] = x"
| "join_with sep (x # y # ys) = x @ sep @ join_with sep (y # ys)"

text \<open>\<^verbatim>\<open>fmt.Sprintf("%v", v)\<close> for a value of the modelled types; a slice prints as \<^verbatim>\<open>[a b c]\<close>.\<close>

fun formatV :: "'f lib \<Rightarrow> 'f val \<Rightarrow> string" where
  "formatV L (VInt k n) = show_int n"
| "formatV L (VUint k n) = show_int n"
| "formatV L (VFloat32 x) = format_float L 32 x"
| "formatV L (VFloat64 x) = format_float L 64 x"
| "formatV L (VString s) = s"
| "formatV L (VBool b) = (if b then ''true'' else ''false'')"
| "formatV L (VDuration d) = Duration_String L d"
| "formatV L (VSlice t vs) = ''['' @ join_with '' '' (map (formatV L) vs) @ '']''"

text \<open>
  \<^verbatim>\<open>reflect.Value.SetInt\<close> and \<^verbatim>\<open>SetUint\<close> store \<^verbatim>\<open>intN(x)\<close>, \<^verbatim>\<open>uintN(x)\<close> for the
  width of the destination, with no range check, and panic on a destination of another kind.
\<close>

fun SetInt :: "gotype \<Rightarrow> int \<Rightarrow> ('f val, unit) outcome" where
  "SetInt (TInt k) x = Returns (VInt k (int_wrap (ibits k) x))"
| "SetInt TDuration x = Returns (VDuration (int_wrap 64 x))"
| "SetInt _ x = Panics"

fun SetUint :: "gotype \<Rightarrow> int \<Rightarrow> ('f val, unit) outcome" where
  "SetUint (TUint k) x = Returns (VUint k (uint_wrap (ubits k) x))"
| "SetUint _ x = Panics"

fun SetFloat :: "gotype \<Rightarrow> 'f \<Rightarrow> ('f val, unit) outcome" where
  "SetFloat TFloat32 x = Returns (VFloat32 x)"
| "SetFloat TFloat64 x = Returns (VFloat64 x)"
| "SetFloat _ x = Panics"

text \<open>A setter that returned, followed by \<^verbatim>\<open>return nil\<close>.\<close>

fun return_nil :: "('a, unit) outcome \<Rightarrow> (error + 'a, unit) outcome" where
  "return_nil (Returns v) = Returns (Inr v)"
| "return_nil Panics = Panics"

text \<open>
  The functions below return \<open>Inr v\<close> for "\<open>vto\<close> now holds \<open>v\<close>, error nil" and
  \<open>Inl e\<close> for "error \<open>e\<close>, \<open>vto\<close> not written".
\<close>

definition unmarshallString :: "'f lib \<Rightarrow> gotype \<Rightarrow> string \<Rightarrow> (error + 'f val, unit) outcome" where
  "unmarshallString L tto s =
     (if type_String tto = ''time.Duration'' then
        (case ParseDuration L s of
           Inl e \<Rightarrow> Returns (Inl e)
         | Inr d \<Rightarrow> Returns (Inr (VDuration d)))
      else case Kind tto of
        KInt k \<Rightarrow>
          (case ParseInt s (ibits k) of
             Inr ival \<Rightarrow> return_nil (SetInt tto ival)
           | Inl err \<Rightarrow>
               (case getBytes L s err of
                  PanicsWith _ \<Rightarrow> Panics
                | Returns (Inl e) \<Rightarrow> Returns (Inl e)
                | Returns (Inr ival) \<Rightarrow> return_nil (SetInt tto ival)))
      | KUint k \<Rightarrow>
          (case ParseUint s (ubits k) of
             Inr uval \<Rightarrow> return_nil (SetUint tto uval)
           | Inl err \<Rightarrow>
               (case getBytes L s err of
                  PanicsWith _ \<Rightarrow> Panics
                | Returns (Inl e) \<Rightarrow> Returns (Inl e)
                | Returns (Inr ival) \<Rightarrow> return_nil (SetUint tto (uint_wrap 64 ival))))
      | KFloat32 \<Rightarrow>
          (case ParseFloat L s 32 of
             Inl err \<Rightarrow> Returns (Inl err)
           | Inr fval \<Rightarrow> return_nil (SetFloat tto fval))
      | KFloat64 \<Rightarrow>
          (case ParseFloat L s 64 of
             Inl err \<Rightarrow> Returns (Inl err)
           | Inr fval \<Rightarrow> return_nil (SetFloat tto fval))
      | _ \<Rightarrow> Returns (Inl (ErrorString
                (''don't know how to unmarshall string to '' @ type_String tto @ [CHR 0x0A]))))"

definition unmarshallFloat :: "'f lib \<Rightarrow> gotype \<Rightarrow> 'f \<Rightarrow> (error + 'f val, unit) outcome" where
  "unmarshallFloat L tto f =
     (case Kind tto of
        KInt k \<Rightarrow> return_nil (SetInt tto (float_int64 L f))
      | KUint k \<Rightarrow> return_nil (SetUint tto (float_uint64 L f))
      | _ \<Rightarrow> Returns (Inl (ErrorString
                (''don't know how to unmarshall float to '' @ type_String tto @ [CHR 0x0A]))))"

definition unmarshall :: "'f lib \<Rightarrow> gotype \<Rightarrow> 'f val \<Rightarrow> (error + 'f val, unit) outcome" where
  "unmarshall L tto vfrom =
     (if AssignableTo (TypeOf vfrom) tto then Returns (Inr vfrom)
      else if Kind tto = KString then Returns (Inr (VString (formatV L vfrom)))
      else case vfrom of
        VString s \<Rightarrow> unmarshallString L tto s
      | VFloat32 x \<Rightarrow> unmarshallFloat L tto x
      | VFloat64 x \<Rightarrow> unmarshallFloat L tto x
      | _ \<Rightarrow> Returns (Inl (ErrorString
                (''Don't know how to unmarshall '' @ type_String (TypeOf vfrom) @ '' to '' @
                 type_String tto @ [CHR 0x0A]))))"

section \<open>Var and the typed wrappers\<close>

text \<open>
  \<^verbatim>\<open>Var(pto, from)\<close> writes into the variable \<open>pto\<close> points to; the model takes the
  variable's current value and returns its value after the call, with the error.
  \<^verbatim>\<open>reflect.ValueOf(nil)\<close> is the invalid Value, whose \<^verbatim>\<open>Type()\<close> panics; the variable
  is as it was then.
\<close>

fun Var :: "'f lib \<Rightarrow> 'f val \<Rightarrow> 'f iface \<Rightarrow> ('f val \<times> error option, 'f val) outcome" where
  "Var L cur NilI = PanicsWith cur"
| "Var L cur (Iface vfrom) =
     (case unmarshall L (TypeOf cur) vfrom of
        PanicsWith _ \<Rightarrow> PanicsWith cur
      | Returns (Inl e) \<Rightarrow> Returns (cur, Some e)
      | Returns (Inr v) \<Rightarrow> Returns (v, None))"

text \<open>
  Each wrapper declares a result variable, zero at first, and calls \<^verbatim>\<open>Var\<close> on it.
  \<^verbatim>\<open>Uint64\<close> declares its result as \<^verbatim>\<open>(u int64, e error)\<close>.
\<close>

definition Int64 :: "'f lib \<Rightarrow> 'f iface \<Rightarrow> ('f val \<times> error option, 'f val) outcome" where
  "Int64 L from = Var L (VInt Int64K 0) from"

definition Uint :: "'f lib \<Rightarrow> 'f iface \<Rightarrow> ('f val \<times> error option, 'f val) outcome" where
  "Uint L from = Var L (VUint UintK 0) from"

definition Uint64 :: "'f lib \<Rightarrow> 'f iface \<Rightarrow> ('f val \<times> error option, 'f val) outcome" where
  "Uint64 L from = Var L (VInt Int64K 0) from"

section \<open>findVal\<close>

text \<open>
  The loop over the formats: \<open>Some r\<close> is \<^verbatim>\<open>ok\<close> with the value found, \<open>None\<close> is
  \<^verbatim>\<open>!ok\<close>; the second component is \<^verbatim>\<open>tried\<close>.
\<close>

fun findVal_loop ::
  "'f lib \<Rightarrow> string \<Rightarrow> (string \<rightharpoonup> 'f iface) \<Rightarrow> string list \<Rightarrow> string \<Rightarrow> 'f iface option \<times> string" where
  "findVal_loop L name from [] tried = (None, tried)"
| "findVal_loop L name from (pat # pats) tried =
     (let key = Sprintf L pat name
      in case from key of
           Some result \<Rightarrow> (Some result, tried)
         | None \<Rightarrow> findVal_loop L name from pats (tried @ key @ ''|''))"

text \<open>\<^verbatim>\<open>tried[:len(tried)-2]\<close> panics when \<^verbatim>\<open>tried\<close> has fewer than two bytes.\<close>

definition findVal ::
  "'f lib \<Rightarrow> string \<Rightarrow> (string \<rightharpoonup> 'f iface) \<Rightarrow> string list \<Rightarrow> (error + 'f iface, unit) outcome" where
  "findVal L name from formats =
     (case findVal_loop L name from (if formats = [] then [''%s''] else formats) [] of
        (Some result, tried) \<Rightarrow> Returns (Inr result)
      | (None, tried) \<Rightarrow>
          if length tried < 2 then Panics
          else Returns (Inl (ErrorString
                 (''Coerce: ['' @ take (length tried - 2) tried @ ''] not found in map''))))"

section \<open>Struct\<close>

text \<open>
  A field of the target struct: its name, its declared type, what \<^verbatim>\<open>CanSet()\<close> answers
  for it when reached through the pointer (true for an exported field), and its value.
  The target is the list of its fields in declaration order; the check that \<^verbatim>\<open>to\<close> is a
  pointer to a struct is settled by this type.
\<close>

record 'f field =
  Name :: string
  Type :: gotype
  CanSet :: bool
  Value :: "'f val"

text \<open>\<^verbatim>\<open>reflect.Zero\<close>.\<close>

fun Zero :: "'f lib \<Rightarrow> gotype \<Rightarrow> 'f val" where
  "Zero L (TInt k) = VInt k 0"
| "Zero L (TUint k) = VUint k 0"
| "Zero L TFloat32 = VFloat32 (float_zero L)"
| "Zero L TFloat64 = VFloat64 (float_zero L)"
| "Zero L TString = VString []"
| "Zero L TBool = VBool False"
| "Zero L TDuration = VDuration 0"
| "Zero L (TSlice t) = VSlice t []"

text \<open>
  The test \<^verbatim>\<open>string(f.Name[0]) == strings.ToLower(string(f.Name[0]))\<close>: the first byte of
  the name, read as a code point below 256, is its own lower case unless it is one of A to Z
  or of U+00C0 to U+00DE other than U+00D7.
\<close>

definition is_own_lower :: "char \<Rightarrow> bool" where
  "is_own_lower c =
     (let n = (of_char c :: nat)
      in \<not> (65 \<le> n \<and> n \<le> 90) \<and> \<not> (192 \<le> n \<and> n \<le> 222 \<and> n \<noteq> 215))"

text \<open>
  Lines 81 to 91: whether the field can be written, after the \<^verbatim>\<open>unsafe\<close> workaround
  where it applies. \<^verbatim>\<open>f.Name[0]\<close> panics on an empty name.
\<close>

definition settable :: "'f field \<Rightarrow> (bool, unit) outcome" where
  "settable f =
     (if CanSet f then Returns True
      else if Name f = [] then Panics
      else Returns (is_own_lower (hd (Name f))))"

text \<open>
  Line 109 asks whether \<^verbatim>\<open>reflect.TypeOf(vv)\<close>, the type \<^verbatim>\<open>reflect.Value\<close> itself, is
  assignable to the field's type; it is to none of the modelled types.
\<close>

definition Value_AssignableTo :: "gotype \<Rightarrow> bool" where
  "Value_AssignableTo t = False"

text \<open>
  Lines 129 to 136: the loop over the elements of the source slice, from index \<open>j\<close> on;
  \<open>ws\<close> is the destination slice. \<^verbatim>\<open>unmarshall\<close> writes a slot only when it succeeds, so
  a panic in it leaves the destination as the elements before had made it.
\<close>

fun slice_loop ::
  "'f lib \<Rightarrow> gotype \<Rightarrow> 'f val list \<Rightarrow> nat \<Rightarrow> 'f val list \<Rightarrow> string \<Rightarrow> ('f val list \<times> string, 'f val list) outcome" where
  "slice_loop L et [] j ws errstr = Returns (ws, errstr)"
| "slice_loop L et (v # vs) j ws errstr =
     (case unmarshall L et v of
        PanicsWith _ \<Rightarrow> PanicsWith ws
      | Returns (Inl err) \<Rightarrow> slice_loop L et vs (Suc j) ws (errstr @ Error L err @ [CHR 0x0A])
      | Returns (Inr w) \<Rightarrow> slice_loop L et vs (Suc j) (ws[j := w]) errstr)"

text \<open>
  A call of \<^verbatim>\<open>unmarshall\<close> on the field itself, followed by the append to \<^verbatim>\<open>errstr\<close>.
\<close>

definition unmarshall_field ::
  "'f lib \<Rightarrow> 'f field \<Rightarrow> 'f val \<Rightarrow> string \<Rightarrow> ('f field \<times> string, 'f field) outcome" where
  "unmarshall_field L f v errstr =
     (case unmarshall L (Type f) v of
        PanicsWith _ \<Rightarrow> PanicsWith f
      | Returns (Inl err) \<Rightarrow> Returns (f, errstr @ Error L err @ [CHR 0x0A])
      | Returns (Inr w) \<Rightarrow> Returns (f\<lparr>Value := w\<rparr>, errstr))"

text \<open>
  The body of the loop over the fields (lines 78 to 146), for one field. A panic while the
  elements of a slice are coerced comes after the field has been set to the fresh slice
  (line 127); any other panic leaves the field untouched.
\<close>

definition bind_field ::
  "'f lib \<Rightarrow> (string \<rightharpoonup> 'f iface) \<Rightarrow> string list \<Rightarrow> 'f field \<Rightarrow> string \<Rightarrow> ('f field \<times> string, 'f field) outcome" where
  "bind_field L from formats f errstr =
     (case settable f of
        PanicsWith _ \<Rightarrow> PanicsWith f
      | Returns False \<Rightarrow> Returns (f, errstr @ ''Coerce: !CanSet() field '' @ Name f @ [CHR 0x0A])
      | Returns True \<Rightarrow>
          (case findVal L (Name f) from formats of
             PanicsWith _ \<Rightarrow> PanicsWith f
           | Returns (Inl err) \<Rightarrow> Returns (f, errstr @ Error L err @ [CHR 0x0A])
           | Returns (Inr NilI) \<Rightarrow> Returns (f\<lparr>Value := Zero L (Type f)\<rparr>, errstr)
           | Returns (Inr (Iface vv)) \<Rightarrow>
               if Value_AssignableTo (Type f) then Returns (f\<lparr>Value := vv\<rparr>, errstr)
               else case vv of
                 VSlice st vs \<Rightarrow>
                   (case Type f of
                      TSlice et \<Rightarrow>
                        (case slice_loop L et vs 0 (replicate (length vs) (Zero L et)) errstr of
                           PanicsWith ws \<Rightarrow> PanicsWith (f\<lparr>Value := VSlice et ws\<rparr>)
                         | Returns (ws, errstr') \<Rightarrow> Returns (f\<lparr>Value := VSlice et ws\<rparr>, errstr'))
                    | _ \<Rightarrow>
                        if length vs = 1 then unmarshall_field L f (vs ! 0) errstr
                        else Returns (f, errstr @ ''Coerce: can't coerce '' @ Name f @
                                         '' from multi-value slice'' @ [CHR 0x0A]))
               | _ \<Rightarrow> unmarshall_field L f vv errstr))"

text \<open>
  The loop over the fields. When the body panics for a field, the fields before it are as
  their turns left them and the fields after it have not been reached.
\<close>

fun Struct_loop ::
  "'f lib \<Rightarrow> (string \<rightharpoonup> 'f iface) \<Rightarrow> string list \<Rightarrow> 'f field list \<Rightarrow> string \<Rightarrow>
     ('f field list \<times> string, 'f field list) outcome" where
  "Struct_loop L from formats [] errstr = Returns ([], errstr)"
| "Struct_loop L from formats (f # fs) errstr =
     (case bind_field L from formats f errstr of
        PanicsWith f' \<Rightarrow> PanicsWith (f' # fs)
      | Returns (f', errstr') \<Rightarrow>
          (case Struct_loop L from formats fs errstr' of
             PanicsWith fs' \<Rightarrow> PanicsWith (f' # fs')
           | Returns (fs', errstr'') \<Rightarrow> Returns (f' # fs', errstr'')))"

text \<open>
  \<^verbatim>\<open>Struct\<close> returns the fields as the call leaves them and the error:
  \<^verbatim>\<open>errstr[:len(errstr)-1]\<close> when \<^verbatim>\<open>errstr\<close> is not empty, nil otherwise.
\<close>

definition Struct ::
  "'f lib \<Rightarrow> 'f field list \<Rightarrow> (string \<rightharpoonup> 'f iface) \<Rightarrow> string list \<Rightarrow>
     ('f field list \<times> error option, 'f field list) outcome" where
  "Struct L to from formats =
     (case Struct_loop L from formats to [] of
        PanicsWith fs \<Rightarrow> PanicsWith fs
      | Returns (fs, errstr) \<Rightarrow>
          Returns (fs, if errstr \<noteq> [] then Some (ErrorString (butlast errstr)) else None))"

section \<open>A library instance for the examples\<close>

text \<open>
  The general theorems below about \<open>unmarshall\<close>, \<open>findVal\<close> and the loop body hold for
  any library \<open>L\<close>. To run the functions on concrete inputs a stand-in is enough, with
  exact decimal fractions \<open>(m, k)\<close>, read as \<open>m / 10 ^ k\<close>, in
  place of binary floating point: it agrees with Go where the decimals involved and their
  products are exactly representable, as for \<^verbatim>\<open>0.5 * 1024\<close>.
\<close>

type_synonym decimal = "int \<times> nat"

text \<open>
  \<^verbatim>\<open>Sprintf(format, a)\<close> with the one string operand \<open>a\<close>, for formats in which each
  percent sign is followed by \<open>s\<close>, \<open>v\<close> or a second percent sign; \<open>used\<close> says that
  the operand is consumed. A verb with no operand left prints \<^verbatim>\<open>%!s(MISSING)\<close>, an operand
  left over prints \<^verbatim>\<open>%!(EXTRA string=a)\<close>. Any other byte after a percent sign is taken
  as a verb that strings do not have.
\<close>

fun sprintf1 :: "bool \<Rightarrow> string \<Rightarrow> string \<Rightarrow> string" where
  "sprintf1 used [] a = (if used then [] else ''%!(EXTRA string='' @ a @ '')'')"
| "sprintf1 used [c] a =
     (if c = CHR ''%'' then ''%!(NOVERB)'' @ sprintf1 used [] a else c # sprintf1 used [] a)"
| "sprintf1 used (c # d # cs) a =
     (if c \<noteq> CHR ''%'' then c # sprintf1 used (d # cs) a
      else if d = CHR ''%'' then CHR ''%'' # sprintf1 used cs a
      else if used then ''%!'' @ [d] @ ''(MISSING)'' @ sprintf1 True cs a
      else if d = CHR ''s'' \<or> d = CHR ''v'' then a @ sprintf1 True cs a
      else ''%!'' @ [d] @ ''(string='' @ a @ '')'' @ sprintf1 True cs a)"

text \<open>\<^verbatim>\<open>strconv.Quote\<close> on printable ASCII: only the quote and the backslash are escaped.\<close>

definition quote_ascii :: "string \<Rightarrow> string" where
  "quote_ascii s =
     [CHR 0x22] @ concat (map (\<lambda>c. if c = CHR 0x22 \<or> c = CHR 0x5C then [CHR 0x5C, c] else [c]) s) @ [CHR 0x22]"

definition digits_val :: "string \<Rightarrow> nat" where
  "digits_val ds = foldl (\<lambda>n c. n * 10 + digit_val c) 0 ds"

text \<open>Plain decimal literals: a sign, digits, a point, digits; at least one digit.\<close>

definition parse_decimal :: "string \<Rightarrow> nat \<Rightarrow> error + decimal" where
  "parse_decimal s bits =
     (let neg = (s \<noteq> [] \<and> hd s = CHR ''-'');
          r = (if s \<noteq> [] \<and> (hd s = CHR ''+'' \<or> hd s = CHR ''-'') then tl s else s);
          ip = takeWhile is_digit r;
          rest = dropWhile is_digit r;
          fp = (if rest = [] then [] else tl rest);
          sg = (if neg then - 1 else 1 :: int)
      in if (rest = [] \<or> hd rest = CHR ''.'') \<and> list_all is_digit fp \<and> ip @ fp \<noteq> []
         then Inr (sg * int (digits_val (ip @ fp)), length fp)
         else Inl (NumError ''ParseFloat'' s ErrSyntax))"

text \<open>Truncation toward zero of \<open>m / 10 ^ k\<close>.\<close>

definition decimal_trunc :: "decimal \<Rightarrow> int" where
  "decimal_trunc d = (case d of (m, k) \<Rightarrow> sgn m * (\<bar>m\<bar> div 10 ^ k))"

definition decimal_mul :: "decimal \<Rightarrow> int \<Rightarrow> int" where
  "decimal_mul d mult = (case d of (m, k) \<Rightarrow> decimal_trunc (m * mult, k))"

definition decimal_String :: "nat \<Rightarrow> decimal \<Rightarrow> string" where
  "decimal_String bits d =
     (case d of (m, k) \<Rightarrow>
        let ds = show_nat (nat \<bar>m\<bar>);
            padded = replicate (Suc k - length ds) (CHR ''0'') @ ds;
            ip = take (length padded - k) padded;
            fp = rev (dropWhile (\<lambda>c. c = CHR ''0'') (rev (drop (length padded - k) padded)))
        in (if m < 0 then ''-'' else []) @ ip @ (if fp = [] then [] else CHR ''.'' # fp))"

text \<open>
  Durations in whole hours, minutes or seconds: one number and one of the units
  \<open>h\<close>, \<open>m\<close>, \<open>s\<close>, or the text \<open>0\<close>; printed as Go prints a whole number of seconds.
\<close>

definition parse_duration :: "string \<Rightarrow> error + int" where
  "parse_duration s =
     (let ds = takeWhile is_digit s; u = dropWhile is_digit s; n = int (digits_val ds)
      in if s = ''0'' then Inr 0
         else if ds \<noteq> [] \<and> u = ''h'' then Inr (n * 3600000000000)
         else if ds \<noteq> [] \<and> u = ''m'' then Inr (n * 60000000000)
         else if ds \<noteq> [] \<and> u = ''s'' then Inr (n * 1000000000)
         else Inl (ErrorString (''time: invalid duration '' @ quote_ascii s)))"

definition duration_String :: "int \<Rightarrow> string" where
  "duration_String d =
     (let secs = nat (\<bar>d\<bar> div 1000000000);
          h = secs div 3600; m = secs mod 3600 div 60; sec = secs mod 60
      in (if d < 0 then ''-'' else []) @
         (if h > 0 then show_nat h @ ''h'' else []) @
         (if h > 0 \<or> m > 0 then show_nat m @ ''m'' else []) @
         show_nat sec @ ''s'')"

definition example_lib :: "decimal lib" where
  "example_lib = \<lparr>
     ParseFloat = parse_decimal,
     float_mul_int64 = decimal_mul,
     float_int64 = decimal_trunc,
     float_uint64 = decimal_trunc,
     format_float = decimal_String,
     ParseDuration = parse_duration,
     Duration_String = duration_String,
     Quote = quote_ascii,
     Sprintf = sprintf1 False,
     float_zero = (0, 0) \<rparr>"

section \<open>What a call leaves behind\<close>

text \<open>
  The value that slot \<open>j\<close> of the fresh destination slice holds after
  \<^verbatim>\<open>unmarshall(vf.Index(j), vv.Index(j))\<close> has returned: the coerced element, or the zero
  value the slot started with when the coercion failed.
\<close>

definition coerced_elem :: "'f lib \<Rightarrow> gotype \<Rightarrow> 'f val \<Rightarrow> 'f val" where
  "coerced_elem L et v = (case unmarshall L et v of Returns (Inr w) \<Rightarrow> w | _ \<Rightarrow> Zero L et)"

text \<open>The message, if any, that a call of \<^verbatim>\<open>unmarshall\<close> adds to the accumulated text.\<close>

fun msgs_of :: "'f lib \<Rightarrow> (error + 'f val, unit) outcome \<Rightarrow> string list" where
  "msgs_of L (Returns (Inl err)) = [Error L err]"
| "msgs_of L _ = []"

text \<open>
  The per-field messages as the documentation of \<^verbatim>\<open>Struct\<close> and its comments describe
  them: one for a field that cannot be set, one for a name not found, one for each failed
  coercion (of the value, of the sole element, or of each element of a slice), one for a
  slice of the wrong length bound to a field that is not a slice; none for nil.
\<close>

definition field_msgs ::
  "'f lib \<Rightarrow> (string \<rightharpoonup> 'f iface) \<Rightarrow> string list \<Rightarrow> 'f field \<Rightarrow> string list" where
  "field_msgs L from formats f =
     (if settable f = Returns False then [''Coerce: !CanSet() field '' @ Name f]
      else case findVal L (Name f) from formats of
        Returns (Inl err) \<Rightarrow> [Error L err]
      | Returns (Inr (Iface (VSlice st vs))) \<Rightarrow>
          (case Type f of
             TSlice et \<Rightarrow> concat (map (\<lambda>v. msgs_of L (unmarshall L et v)) vs)
           | _ \<Rightarrow> if length vs = 1 then msgs_of L (unmarshall L (Type f) (vs ! 0))
                  else [''Coerce: can't coerce '' @ Name f @ '' from multi-value slice''])
      | Returns (Inr (Iface vv)) \<Rightarrow> msgs_of L (unmarshall L (Type f) vv)
      | _ \<Rightarrow> [])"

text \<open>Each message followed by a newline, as \<^verbatim>\<open>errstr += msg + "\n"\<close> accumulates them.\<close>

definition lines :: "string list \<Rightarrow> string" where
  "lines msgs = concat (map (\<lambda>m. m @ [CHR 0x0A]) msgs)"

text \<open>The error of a call with the given messages: none, or the messages one per line.\<close>

definition aggregate :: "string list \<Rightarrow> error option" where
  "aggregate msgs = (if msgs = [] then None else Some (ErrorString (join_with [CHR 0x0A] msgs)))"

text \<open>
  The target as a call leaves it, whether the call returned or panicked.
\<close>

fun left_behind :: "('s \<times> 'a, 's) outcome \<Rightarrow> 's" where
  "left_behind (Returns (s, a)) = s"
| "left_behind (PanicsWith s) = s"

section \<open>Evaluation\<close>

text \<open>The defining equations that \<open>simp\<close> needs to run the parsers and \<open>unmarshall\<close> on a text.\<close>

lemmas parse_defs =
  ParseInt_def ParseUint_def is_digit_def digit_val_def getBytes_def unit_mult_def
  int_wrap_def uint_wrap_def

lemmas unmarshall_defs =
  unmarshallString_def unmarshallFloat_def unmarshall_def AssignableTo_def

lemmas struct_defs =
  findVal_def bind_field_def settable_def is_own_lower_def unmarshall_field_def
  Value_AssignableTo_def Struct_def

lemmas example_defs =
  example_lib_def parse_decimal_def decimal_mul_def decimal_trunc_def digits_val_def
  quote_ascii_def

lemma ikind_String_not_Duration [simp]: "ikind_String k \<noteq> ''time.Duration''"
  by (cases k) simp_all

lemma ukind_String_not_Duration [simp]: "ukind_String k \<noteq> ''time.Duration''"
  by (cases k) simp_all

section \<open>The loop over the elements of a slice\<close>

text \<open>
  Started on a destination of fresh slots \<open>z\<close> behind the part \<open>pre\<close> already done, the
  loop returns unless an element panics, puts each coerced element at its own index, leaves
  \<open>z\<close> where the coercion failed, and appends one line for each failure. It panics when
  an element does, and then the elements before that one have been coerced and the slots from
  that one on are still \<open>z\<close>.
\<close>

lemma slice_loop_fresh:
  "\<forall>v\<in>set vs. unmarshall L et v \<noteq> Panics \<Longrightarrow>
   slice_loop L et vs (length pre) (pre @ replicate (length vs) z) errstr =
     Returns (pre @ map (\<lambda>v. case unmarshall L et v of Returns (Inr w) \<Rightarrow> w | _ \<Rightarrow> z) vs,
              errstr @ lines (concat (map (\<lambda>v. msgs_of L (unmarshall L et v)) vs)))"
proof (induction vs arbitrary: pre errstr)
  case Nil
  then show ?case by (simp add: lines_def)
next
  case (Cons v vs)
  have np: "unmarshall L et v \<noteq> Panics" and rest: "\<forall>v\<in>set vs. unmarshall L et v \<noteq> Panics"
    using Cons.prems by simp_all
  show ?case
  proof (cases "unmarshall L et v")
    case (PanicsWith u)
    with np show ?thesis by simp
  next
    case (Returns r)
    show ?thesis
    proof (cases r)
      case (Inl err)
      have "slice_loop L et vs (length (pre @ [z])) ((pre @ [z]) @ replicate (length vs) z)
              (errstr @ Error L err @ [CHR 0x0A]) =
            Returns ((pre @ [z]) @ map (\<lambda>v. case unmarshall L et v of Returns (Inr w) \<Rightarrow> w | _ \<Rightarrow> z) vs,
              (errstr @ Error L err @ [CHR 0x0A]) @ lines (concat (map (\<lambda>v. msgs_of L (unmarshall L et v)) vs)))"
        by (rule Cons.IH [OF rest])
      with Returns Inl show ?thesis by (simp add: lines_def)
    next
      case (Inr w)
      have "slice_loop L et vs (length (pre @ [w])) ((pre @ [w]) @ replicate (length vs) z) errstr =
            Returns ((pre @ [w]) @ map (\<lambda>v. case unmarshall L et v of Returns (Inr w) \<Rightarrow> w | _ \<Rightarrow> z) vs,
              errstr @ lines (concat (map (\<lambda>v. msgs_of L (unmarshall L et v)) vs)))"
        by (rule Cons.IH [OF rest])
      with Returns Inr show ?thesis by (simp add: lines_def)
    qed
  qed
qed

lemma slice_loop_Panics:
  "\<exists>v\<in>set vs. unmarshall L et v = Panics \<Longrightarrow> \<exists>ws'. slice_loop L et vs j ws errstr = PanicsWith ws'"
proof (induction vs arbitrary: j ws errstr)
  case Nil
  then show ?case by simp
next
  case (Cons a vs)
  show ?case
  proof (cases "unmarshall L et a")
    case (PanicsWith u)
    then show ?thesis by simp
  next
    case (Returns r)
    with Cons.prems have "\<exists>v\<in>set vs. unmarshall L et v = Panics" by auto
    from Cons.IH [OF this] Returns show ?thesis by (cases r) simp_all
  qed
qed

lemma slice_loop_left_behind:
  "left_behind (slice_loop L et vs (length pre) (pre @ replicate (length vs) z) errstr) =
     pre @ map (\<lambda>v. case unmarshall L et v of Returns (Inr w) \<Rightarrow> w | _ \<Rightarrow> z)
             (takeWhile (\<lambda>v. unmarshall L et v \<noteq> Panics) vs)
         @ replicate (length (dropWhile (\<lambda>v. unmarshall L et v \<noteq> Panics) vs)) z"
proof (induction vs arbitrary: pre errstr)
  case Nil
  then show ?case by simp
next
  case (Cons v vs)
  show ?case
  proof (cases "unmarshall L et v")
    case (PanicsWith u)
    then show ?thesis by simp
  next
    case (Returns r)
    show ?thesis
    proof (cases r)
      case (Inl err)
      from Cons.IH [of "pre @ [z]" "errstr @ Error L err @ [CHR 0x0A]"] Returns Inl
      show ?thesis by simp
    next
      case (Inr w)
      from Cons.IH [of "pre @ [w]" errstr] Returns Inr
      show ?thesis by simp
    qed
  qed
qed

section \<open>One field\<close>

text \<open>
  What the body of the loop over the fields does with a field that can be set, by the value
  that \<^verbatim>\<open>findVal\<close> returned for it.
\<close>

lemma bind_field_slice:
  assumes "settable f = Returns True"
    and "findVal L (Name f) from formats = Returns (Inr (Iface (VSlice st vs)))"
    and "Type f = TSlice et"
    and "\<forall>v\<in>set vs. unmarshall L et v \<noteq> Panics"
  shows "bind_field L from formats f errstr =
           Returns (f\<lparr>Value := VSlice et (map (coerced_elem L et) vs)\<rparr>,
                    errstr @ lines (concat (map (\<lambda>v. msgs_of L (unmarshall L et v)) vs)))"
proof -
  have "slice_loop L et vs 0 (replicate (length vs) (Zero L et)) errstr =
          Returns (map (coerced_elem L et) vs,
                   errstr @ lines (concat (map (\<lambda>v. msgs_of L (unmarshall L et v)) vs)))"
    using slice_loop_fresh [OF assms(4), of "[]" "Zero L et" errstr]
    by (simp add: coerced_elem_def [abs_def])
  with assms(1-3) show ?thesis
    by (simp add: bind_field_def Value_AssignableTo_def)
qed

lemma bind_field_slice_left_behind:
  assumes "settable f = Returns True"
    and "findVal L (Name f) from formats = Returns (Inr (Iface (VSlice st vs)))"
    and "Type f = TSlice et"
  shows "left_behind (bind_field L from formats f errstr) =
           f\<lparr>Value := VSlice et
               (map (coerced_elem L et) (takeWhile (\<lambda>v. unmarshall L et v \<noteq> Panics) vs)
                @ replicate (length (dropWhile (\<lambda>v. unmarshall L et v \<noteq> Panics) vs)) (Zero L et))\<rparr>"
proof -
  let ?sl = "slice_loop L et vs 0 (replicate (length vs) (Zero L et)) errstr"
  have b: "bind_field L from formats f errstr =
             (case ?sl of
                PanicsWith ws \<Rightarrow> PanicsWith (f\<lparr>Value := VSlice et ws\<rparr>)
              | Returns (ws, errstr') \<Rightarrow> Returns (f\<lparr>Value := VSlice et ws\<rparr>, errstr'))"
    using assms by (simp add: bind_field_def Value_AssignableTo_def)
  have "left_behind (bind_field L from formats f errstr) = f\<lparr>Value := VSlice et (left_behind ?sl)\<rparr>"
    unfolding b by (cases ?sl) auto
  then show ?thesis
    using slice_loop_left_behind [of L et vs "[]" "Zero L et" errstr]
    by (simp add: coerced_elem_def [abs_def])
qed

lemma bind_field_scalar:
  assumes "settable f = Returns True"
    and "findVal L (Name f) from formats = Returns (Inr (Iface (VSlice st vs)))"
    and "Kind (Type f) \<noteq> KSlice"
  shows "bind_field L from formats f errstr =
           (if length vs = 1 then unmarshall_field L f (vs ! 0) errstr
            else Returns (f, errstr @ ''Coerce: can't coerce '' @ Name f @
                             '' from multi-value slice'' @ [CHR 0x0A]))"
  using assms by (cases "Type f") (simp_all add: bind_field_def Value_AssignableTo_def)

lemma bind_field_nil:
  assumes "settable f = Returns True"
    and "findVal L (Name f) from formats = Returns (Inr NilI)"
  shows "bind_field L from formats f errstr = Returns (f\<lparr>Value := Zero L (Type f)\<rparr>, errstr)"
  using assms by (simp add: bind_field_def)

lemma coerced_elem_failed:
  "unmarshall L et v = Returns (Inl err) \<Longrightarrow> coerced_elem L et v = Zero L et"
  by (simp add: coerced_elem_def)

lemma coerced_elem_done:
  "unmarshall L et v = Returns (Inr w) \<Longrightarrow> coerced_elem L et v = w"
  by (simp add: coerced_elem_def)

lemma coerced_elem_cases:
  "coerced_elem L et v = Zero L et \<or> unmarshall L et v = Returns (Inr (coerced_elem L et v))"
  by (simp add: coerced_elem_def split: outcome.splits sum.splits)

lemma coerced_elem_not_done:
  "\<forall>w. unmarshall L et v \<noteq> Returns (Inr w) \<Longrightarrow> coerced_elem L et v = Zero L et"
  by (simp add: coerced_elem_def split: outcome.splits sum.splits)

lemma settable_Value_update [simp]: "settable (f\<lparr>Value := x\<rparr>) = settable f"
  by (simp add: settable_def)

text \<open>
  The example of the package's documentation, for a library that reads \<^verbatim>\<open>0.5\<close> as a
  float \<open>h\<close> with \<^verbatim>\<open>int64(h * 1024)\<close> equal to 512.
\<close>

lemma unmarshall_doc_example:
  assumes "ParseFloat L ''0.5'' 64 = Inr h" and "float_mul_int64 L h (2 ^ 10) = 512"
  shows "map (coerced_elem L (TInt IntK)) [VString ''5'', VString ''12'', VString ''0.5k''] =
           [VInt IntK 5, VInt IntK 12, VInt IntK 512]"
    and "concat (map (\<lambda>v. msgs_of L (unmarshall L (TInt IntK) v))
           [VString ''5'', VString ''12'', VString ''0.5k'']) = []"
  using assms by (simp_all add: coerced_elem_def parse_defs unmarshall_defs)

text \<open>
  When no element panics, the destination has the length of the source and holds at each
  index the coercion of the source element at that index.
\<close>

lemma slice_to_slice_without_panic:
  assumes "settable f = Returns True"
    and "findVal L (Name f) from formats = Returns (Inr (Iface (VSlice st vs)))"
    and "Type f = TSlice et"
    and "\<forall>v\<in>set vs. unmarshall L et v \<noteq> Panics"
  shows "\<exists>f' errstr' ws.
            bind_field L from formats f errstr = Returns (f', errstr')
            \<and> Value f' = VSlice et ws
            \<and> length ws = length vs
            \<and> (\<forall>i<length vs. \<forall>w. unmarshall L et (vs ! i) = Returns (Inr w) \<longrightarrow> ws ! i = w)"
proof -
  let ?ws = "map (coerced_elem L et) vs"
  have r: "bind_field L from formats f errstr =
           Returns (f\<lparr>Value := VSlice et ?ws\<rparr>,
                    errstr @ lines (concat (map (\<lambda>v. msgs_of L (unmarshall L et v)) vs)))"
    by (rule bind_field_slice [OF assms])
  moreover have "Value (f\<lparr>Value := VSlice et ?ws\<rparr>) = VSlice et ?ws" by simp
  moreover have "length ?ws = length vs" by simp
  moreover have "\<forall>i<length vs. \<forall>w. unmarshall L et (vs ! i) = Returns (Inr w) \<longrightarrow> ?ws ! i = w"
    by (simp add: coerced_elem_done)
  ultimately show ?thesis by blast
qed

lemma doc_example_for_any_library:
  assumes "settable f = Returns True"
    and "findVal L (Name f) from formats =
           Returns (Inr (Iface (VSlice st [VString ''5'', VString ''12'', VString ''0.5k''])))"
    and "Type f = TSlice (TInt IntK)"
    and "ParseFloat L ''0.5'' 64 = Inr h" and "float_mul_int64 L h (2 ^ 10) = 512"
  shows "bind_field L from formats f errstr =
           Returns (f\<lparr>Value := VSlice (TInt IntK) [VInt IntK 5, VInt IntK 12, VInt IntK 512]\<rparr>, errstr)"
proof -
  have np: "\<forall>v\<in>set [VString ''5'', VString ''12'', VString ''0.5k'']. unmarshall L (TInt IntK) v \<noteq> Panics"
    using assms(4,5) by (simp add: parse_defs unmarshall_defs)
  show ?thesis
    using bind_field_slice [OF assms(1-3) np, of errstr] unmarshall_doc_example [OF assms(4,5)]
    by (simp add: lines_def)
qed

text \<open>Formats whose keys are absent are passed over, each key being recorded.\<close>

lemma findVal_loop_miss:
  "\<forall>q\<in>set ps. from (Sprintf L q name) = None \<Longrightarrow>
   findVal_loop L name from (ps @ qs) tried =
     findVal_loop L name from qs (tried @ concat (map (\<lambda>q. Sprintf L q name @ ''|'') ps))"
  by (induction ps arbitrary: tried) simp_all

section \<open>The accumulated messages\<close>

text \<open>
  The text that the loop body appends for a field does not depend on the text accumulated
  before, and neither does a panic: for each field the body either panics whatever
  \<^verbatim>\<open>errstr\<close> is, or returns with the field's messages appended, one per line. So a call of
  \<^verbatim>\<open>Struct\<close> in which no field panics returns, and what it returns is nil when no field
  had a message and otherwise one error whose text is the messages of all the fields, one
  per line, each of them a part of the text.
\<close>

lemma lines_append [simp]: "lines (xs @ ys) = lines xs @ lines ys"
  by (simp add: lines_def)

lemma lines_Nil [simp]: "lines [] = []"
  by (simp add: lines_def)

lemma lines_Cons [simp]: "lines (m # ms) = m @ [CHR 0x0A] @ lines ms"
  by (simp add: lines_def)

lemma lines_empty_iff [simp]: "lines msgs = [] \<longleftrightarrow> msgs = []"
  by (cases msgs) simp_all

lemma lines_join_with:
  "msgs \<noteq> [] \<Longrightarrow> lines msgs = join_with [CHR 0x0A] msgs @ [CHR 0x0A]"
  by (induction msgs rule: induct_list012) simp_all

lemma butlast_lines: "msgs \<noteq> [] \<Longrightarrow> butlast (lines msgs) = join_with [CHR 0x0A] msgs"
  by (simp add: lines_join_with)

lemma join_with_contains:
  "m \<in> set msgs \<Longrightarrow> \<exists>pre post. join_with sep msgs = pre @ m @ post"
proof (induction sep msgs rule: join_with.induct)
  case (1 sep)
  then show ?case by simp
next
  case (2 sep x)
  then have "join_with sep [x] = [] @ m @ []" by simp
  then show ?case by blast
next
  case (3 sep x y ys)
  show ?case
  proof (cases "m = x")
    case True
    then have "join_with sep (x # y # ys) = [] @ m @ (sep @ join_with sep (y # ys))" by simp
    then show ?thesis by blast
  next
    case False
    with 3 obtain pre post where "join_with sep (y # ys) = pre @ m @ post" by auto
    then have "join_with sep (x # y # ys) = (x @ sep @ pre) @ m @ post" by simp
    then show ?thesis by blast
  qed
qed

lemma unmarshall_field_frame:
  "unmarshall_field L f v errstr =
     (case unmarshall L (Type f) v of
        PanicsWith _ \<Rightarrow> PanicsWith f
      | Returns r \<Rightarrow> Returns (case r of Inl err \<Rightarrow> f | Inr w \<Rightarrow> f\<lparr>Value := w\<rparr>,
                              errstr @ lines (msgs_of L (unmarshall L (Type f) v))))"
  by (simp add: unmarshall_field_def split: outcome.splits sum.splits)

lemma bind_field_uniform:
  "(\<exists>f'. \<forall>e. bind_field L from formats f e = PanicsWith f')
   \<or> (\<exists>f'. \<forall>e. bind_field L from formats f e = Returns (f', e @ lines (field_msgs L from formats f)))"
proof (cases "settable f")
  case (PanicsWith u)
  then show ?thesis by (simp add: bind_field_def)
next
  case (Returns b)
  show ?thesis
  proof (cases b)
    case False
    with Returns show ?thesis by (simp add: bind_field_def field_msgs_def)
  next
    case True
    with Returns have st: "settable f = Returns True" by simp
    show ?thesis
    proof (cases "findVal L (Name f) from formats")
      case (PanicsWith u)
      with st show ?thesis by (simp add: bind_field_def)
    next
      case (Returns r)
      show ?thesis
      proof (cases r)
        case (Inl err)
        with st Returns show ?thesis by (simp add: bind_field_def field_msgs_def)
      next
        case (Inr i)
        show ?thesis
        proof (cases i)
          case NilI
          with st Returns Inr show ?thesis by (simp add: bind_field_def field_msgs_def)
        next
          case (Iface vv)
          with Returns Inr have fv: "findVal L (Name f) from formats = Returns (Inr (Iface vv))"
            by simp
          have scalar: ?thesis if ns: "\<forall>st vs. vv \<noteq> VSlice st vs"
          proof -
            have b: "bind_field L from formats f e = unmarshall_field L f vv e" for e
              using st fv ns by (cases vv) (simp_all add: bind_field_def Value_AssignableTo_def)
            have m: "field_msgs L from formats f = msgs_of L (unmarshall L (Type f) vv)"
              using st fv ns by (cases vv) (simp_all add: field_msgs_def)
            show ?thesis
              unfolding b m unmarshall_field_frame
              by (cases "unmarshall L (Type f) vv") simp_all
          qed
          show ?thesis
          proof (cases vv)
            case (VSlice st' vs)
            with fv have fv': "findVal L (Name f) from formats = Returns (Inr (Iface (VSlice st' vs)))"
              by simp
            show ?thesis
            proof (cases "Kind (Type f) = KSlice")
              case True
              then obtain et where et: "Type f = TSlice et" by (cases "Type f") simp_all
              have m: "field_msgs L from formats f = concat (map (\<lambda>v. msgs_of L (unmarshall L et v)) vs)"
                using st fv' et by (simp add: field_msgs_def)
              show ?thesis
              proof (cases "\<exists>v\<in>set vs. unmarshall L et v = Panics")
                case True
                have "left_behind (bind_field L from formats f e) = left_behind (bind_field L from formats f [])" for e
                  by (simp add: bind_field_slice_left_behind [OF st fv' et])
                moreover have "\<exists>g. bind_field L from formats f e = PanicsWith g" for e
                proof -
                  obtain ws' where "slice_loop L et vs 0 (replicate (length vs) (Zero L et)) e = PanicsWith ws'"
                    using slice_loop_Panics [OF True] by blast
                  then show ?thesis
                    using st fv' et by (simp add: bind_field_def Value_AssignableTo_def)
                qed
                ultimately have "\<forall>e. bind_field L from formats f e =
                                   PanicsWith (left_behind (bind_field L from formats f []))"
                  by (metis left_behind.simps(2))
                then show ?thesis by blast
              next
                case False
                then have np: "\<forall>v\<in>set vs. unmarshall L et v \<noteq> Panics" by simp
                show ?thesis
                  using bind_field_slice [OF st fv' et np] m by auto
              qed
            next
              case False
              have b: "bind_field L from formats f e =
                         (if length vs = 1 then unmarshall_field L f (vs ! 0) e
                          else Returns (f, e @ ''Coerce: can't coerce '' @ Name f @
                                          '' from multi-value slice'' @ [CHR 0x0A]))" for e
                by (rule bind_field_scalar [OF st fv' False])
              have nt: "\<forall>et. Type f \<noteq> TSlice et" using False by auto
              have m: "field_msgs L from formats f =
                         (if length vs = 1 then msgs_of L (unmarshall L (Type f) (vs ! 0))
                          else [''Coerce: can't coerce '' @ Name f @ '' from multi-value slice''])"
                using st fv' nt by (cases "Type f") (simp_all add: field_msgs_def)
              show ?thesis
              proof (cases "length vs = 1")
                case True
                show ?thesis
                  unfolding b m unmarshall_field_frame using True
                  by (cases "unmarshall L (Type f) (vs ! 0)") simp_all
              next
                case False
                then show ?thesis unfolding b m by simp
              qed
            qed
          qed (use scalar in simp_all)
        qed
      qed
    qed
  qed
qed

lemma bind_field_Returns_msgs:
  assumes "bind_field L from formats f errstr = Returns (f', e')"
  shows "e' = errstr @ lines (field_msgs L from formats f)"
  using bind_field_uniform [of L "from" formats f] assms by auto

lemma bind_field_Returns_any:
  assumes "bind_field L from formats f [] = Returns (f', t)"
  shows "bind_field L from formats f errstr = Returns (f', errstr @ lines (field_msgs L from formats f))"
  using bind_field_uniform [of L "from" formats f] assms by auto

lemma Struct_loop_Returns_msgs:
  "Struct_loop L from formats fs errstr = Returns (fs', e') \<Longrightarrow>
   e' = errstr @ lines (concat (map (field_msgs L from formats) fs))"
proof (induction fs arbitrary: errstr fs' e')
  case Nil
  then show ?case by simp
next
  case (Cons f fs)
  from Cons.prems obtain f1 e1 where b: "bind_field L from formats f errstr = Returns (f1, e1)"
    by (cases "bind_field L from formats f errstr") auto
  with Cons.prems obtain fs1 where s: "Struct_loop L from formats fs e1 = Returns (fs1, e')"
    by (cases "Struct_loop L from formats fs e1") auto
  from bind_field_Returns_msgs [OF b] Cons.IH [OF s] show ?case by simp
qed

lemma Struct_loop_returns:
  "\<forall>f\<in>set fs. \<exists>f' t. bind_field L from formats f [] = Returns (f', t) \<Longrightarrow>
   \<exists>fs'. Struct_loop L from formats fs errstr =
           Returns (fs', errstr @ lines (concat (map (field_msgs L from formats) fs)))"
proof (induction fs arbitrary: errstr)
  case Nil
  then show ?case by simp
next
  case (Cons f fs)
  from Cons.prems obtain f' t where "bind_field L from formats f [] = Returns (f', t)" by auto
  then have b: "bind_field L from formats f errstr =
                  Returns (f', errstr @ lines (field_msgs L from formats f))"
    by (rule bind_field_Returns_any)
  from Cons.prems have "\<forall>f\<in>set fs. \<exists>f' t. bind_field L from formats f [] = Returns (f', t)" by simp
  from Cons.IH [OF this, of "errstr @ lines (field_msgs L from formats f)"] b
  show ?case by auto
qed

lemma aggregate_lines:
  "(if lines msgs \<noteq> [] then Some (ErrorString (butlast (lines msgs))) else None) = aggregate msgs"
  by (simp add: aggregate_def butlast_lines)

lemma Struct_aggregates:
  assumes "Struct L to from formats = Returns (fs', r)"
  shows "r = aggregate (concat (map (field_msgs L from formats) to))"
proof -
  from assms obtain e' where s: "Struct_loop L from formats to [] = Returns (fs', e')"
    and r: "r = (if e' \<noteq> [] then Some (ErrorString (butlast e')) else None)"
    by (cases "Struct_loop L from formats to []") (auto simp: Struct_def)
  from Struct_loop_Returns_msgs [OF s] have "e' = lines (concat (map (field_msgs L from formats) to))"
    by simp
  with r have "r = (if lines (concat (map (field_msgs L from formats) to)) \<noteq> []
                    then Some (ErrorString (butlast (lines (concat (map (field_msgs L from formats) to)))))
                    else None)"
    by (simp only:)
  then show ?thesis by (simp only: aggregate_lines)
qed

lemma Struct_returns_without_panic:
  assumes "\<forall>f\<in>set to. \<exists>f' t. bind_field L from formats f [] = Returns (f', t)"
  shows "\<exists>fs'. Struct L to from formats =
           Returns (fs', aggregate (concat (map (field_msgs L from formats) to)))"
proof -
  from Struct_loop_returns [OF assms, of "[]"] obtain fs'
    where "Struct_loop L from formats to [] =
             Returns (fs', lines (concat (map (field_msgs L from formats) to)))"
    by auto
  then have "Struct L to from formats =
               Returns (fs', aggregate (concat (map (field_msgs L from formats) to)))"
    by (simp add: Struct_def aggregate_lines del: lines_empty_iff)
  then show ?thesis by blast
qed

lemma aggregate_contains:
  assumes "m \<in> set msgs" and "aggregate msgs = Some (ErrorString text)"
  shows "\<exists>pre post. text = pre @ m @ post"
proof -
  from assms(2) have "text = join_with [CHR 0x0A] msgs"
    by (simp add: aggregate_def split: if_splits)
  with join_with_contains [OF assms(1), of "[CHR 0x0A]"] show ?thesis by simp
qed

section \<open>The unit suffix and the width of the destination\<close>

text \<open>
  C9. Coercing a string into an integer destination is not total: on the empty string
  \<^verbatim>\<open>ParseInt\<close> (or \<^verbatim>\<open>ParseUint\<close>) fails, \<^verbatim>\<open>getBytes\<close> is called and reads
  \<^verbatim>\<open>s[len(s)-1]\<close>, one position before the start of its input, which panics. This holds
  for every signed and unsigned width.
\<close>

theorem empty_string_to_integer_panics:
  "getBytes L [] err = Panics
   \<and> unmarshallString L (TInt k) [] = Panics
   \<and> unmarshallString L (TUint k') [] = Panics
   \<and> unmarshall L (TInt k) (VString []) = Panics"
  by (simp add: parse_defs unmarshall_defs)

text \<open>
  C1. A unit-suffixed text whose product does not fit the destination is stored wrapped
  around to the destination's width, with no error: \<^verbatim>\<open>getBytes\<close> computes \<open>1 * 1024\<close> for
  the text \<^verbatim>\<open>1K\<close> and \<^verbatim>\<open>SetInt\<close> keeps its low 8 bits, so an \<^verbatim>\<open>int8\<close> or \<^verbatim>\<open>uint8\<close>
  destination receives 0 where an overflow error was due; \<^verbatim>\<open>200B\<close> becomes \<open>- 56\<close> in an
  \<^verbatim>\<open>int8\<close>. The same text without the suffix is rejected with a range error.
\<close>

theorem suffixed_overflow_wraps_silently:
  "unmarshallString L (TInt Int8K) ''1K'' = Returns (Inr (VInt Int8K 0))
   \<and> unmarshallString L (TUint Uint8K) ''1K'' = Returns (Inr (VUint Uint8K 0))
   \<and> unmarshallString L (TInt Int8K) ''200B'' = Returns (Inr (VInt Int8K (- 56)))
   \<and> unmarshallString L (TInt Int8K) ''200'' = Returns (Inl (NumError ''ParseInt'' ''200'' ErrRange))"
  by (simp add: parse_defs unmarshall_defs)

section \<open>The typed wrappers\<close>

text \<open>
  C5. \<^verbatim>\<open>Uint64\<close> declares its result variable as \<^verbatim>\<open>int64\<close>, so the text is read by
  \<^verbatim>\<open>ParseInt\<close> at 64 signed bits: for the largest unsigned 64-bit number,
  \<^verbatim>\<open>18446744073709551615\<close>, it returns 0 and a range error, although \<^verbatim>\<open>ParseUint\<close> at 64
  bits reads that text, and \<^verbatim>\<open>Uint\<close>, whose variable is unsigned, returns the number.
\<close>

theorem Uint64_rejects_max_uint64:
  "Uint64 L (Iface (VString ''18446744073709551615'')) =
     Returns (VInt Int64K 0, Some (NumError ''ParseInt'' ''18446744073709551615'' ErrRange))
   \<and> ParseUint ''18446744073709551615'' 64 = Inr 18446744073709551615
   \<and> Uint L (Iface (VString ''18446744073709551615'')) =
     Returns (VUint UintK 18446744073709551615, None)"
  by (simp add: Uint64_def Uint_def parse_defs unmarshall_defs)

section \<open>Resolution of a field name\<close>

text \<open>
  C2. When no key matches, the message of \<^verbatim>\<open>findVal\<close> is built from
  \<^verbatim>\<open>tried[:len(tried)-2]\<close>, which removes the closing bar and also the last byte of the
  last key tried: for the field \<^verbatim>\<open>Name\<close>, an empty map and no formats the message holds
  \<^verbatim>\<open>Nam\<close>, and with the formats \<^verbatim>\<open>--%s\<close> and \<^verbatim>\<open>-%s\<close> for the field \<^verbatim>\<open>foo\<close> it holds
  \<^verbatim>\<open>--foo|-fo\<close>. The field keeps its value.
\<close>

theorem not_found_message_cuts_last_key:
  "findVal example_lib ''Name'' Map.empty [] =
     Returns (Inl (ErrorString ''Coerce: [Nam] not found in map''))
   \<and> findVal example_lib ''foo'' Map.empty [''--%s'', ''-%s''] =
     Returns (Inl (ErrorString ''Coerce: [--foo|-fo] not found in map''))
   \<and> Struct example_lib
       [\<lparr>Name = ''Name'', Type = TString, CanSet = True, Value = VString ''prior''\<rparr>]
       Map.empty [] =
     Returns ([\<lparr>Name = ''Name'', Type = TString, CanSet = True, Value = VString ''prior''\<rparr>],
              Some (ErrorString ''Coerce: [Nam] not found in map''))"
  by (simp add: struct_defs example_defs)

text \<open>
  C8. \<^verbatim>\<open>findVal\<close> tries the formats in the order given and returns the value stored under
  the first rendered key that the map holds: when the keys of the formats \<open>ps\<close> are absent
  and the key of the next format \<open>p\<close> is present with value \<open>v\<close>, the result is \<open>v\<close>,
  whatever formats \<open>qs\<close> follow and whatever the map holds for them. With the formats
  \<^verbatim>\<open>--%s\<close>, \<^verbatim>\<open>-%s\<close> and a map holding both \<^verbatim>\<open>--foo\<close> and \<^verbatim>\<open>-foo\<close>, the field \<^verbatim>\<open>foo\<close>
  resolves to the value under \<^verbatim>\<open>--foo\<close>.
\<close>

theorem findVal_first_match:
  assumes "\<forall>q\<in>set ps. from (Sprintf L q name) = None"
    and "from (Sprintf L p name) = Some v"
  shows "findVal L name from (ps @ p # qs) = Returns (Inr v)"
proof -
  have "findVal_loop L name from (ps @ p # qs) [] =
          (Some v, concat (map (\<lambda>q. Sprintf L q name @ ''|'') ps))"
    using findVal_loop_miss [OF assms(1), of "p # qs" "[]"] assms(2) by simp
  then show ?thesis by (simp add: findVal_def)
qed

theorem findVal_first_match_witness:
  "[''--foo'' \<mapsto> (Iface (VString ''long'') :: decimal iface), ''-foo'' \<mapsto> Iface (VString ''short'')]
        (Sprintf example_lib ''--%s'' ''foo'') = Some (Iface (VString ''long''))
   \<and> findVal example_lib ''foo''
        [''--foo'' \<mapsto> (Iface (VString ''long'') :: decimal iface), ''-foo'' \<mapsto> Iface (VString ''short'')]
        [''--%s'', ''-%s''] = Returns (Inr (Iface (VString ''long'')))
   \<and> [''--foo'' \<mapsto> (Iface (VString ''long'') :: decimal iface)] (Sprintf example_lib ''-%s'' ''foo'') = None
   \<and> [''--foo'' \<mapsto> (Iface (VString ''long'') :: decimal iface)] (Sprintf example_lib ''--%s'' ''foo'') =
        Some (Iface (VString ''long''))
   \<and> findVal example_lib ''foo'' [''--foo'' \<mapsto> (Iface (VString ''long'') :: decimal iface)] [''-%s'', ''--%s''] =
        Returns (Inr (Iface (VString ''long'')))"
proof -
  let ?M = "[''--foo'' \<mapsto> (Iface (VString ''long'') :: decimal iface), ''-foo'' \<mapsto> Iface (VString ''short'')]"
  let ?N = "[''--foo'' \<mapsto> Iface (VString ''long'') :: decimal iface]"
  have a: "\<forall>q\<in>set []. ?M (Sprintf example_lib q ''foo'') = None" by simp
  have b: "?M (Sprintf example_lib ''--%s'' ''foo'') = Some (Iface (VString ''long''))"
    by (simp add: example_lib_def)
  have c1: "?N (Sprintf example_lib ''-%s'' ''foo'') = None"
    by (simp add: example_lib_def)
  then have c: "\<forall>q\<in>set [''-%s'']. ?N (Sprintf example_lib q ''foo'') = None"
    by simp
  have d: "?N (Sprintf example_lib ''--%s'' ''foo'') = Some (Iface (VString ''long''))"
    by (simp add: example_lib_def)
  have r1: "findVal example_lib ''foo'' ?M [''--%s'', ''-%s''] = Returns (Inr (Iface (VString ''long'')))"
    using findVal_first_match [OF a b, of "[''-%s'']"] by (simp only: append.simps)
  have r2: "findVal example_lib ''foo'' ?N [''-%s'', ''--%s''] = Returns (Inr (Iface (VString ''long'')))"
    using findVal_first_match [OF c d, of "[]"] by (simp only: append.simps)
  from b c1 d r1 r2 show ?thesis by blast
qed

section \<open>Binding one field\<close>

text \<open>
  C7. For a field that can be set and whose name resolves to nil, the loop body stores the
  zero value of the field's declared type, leaves \<^verbatim>\<open>errstr\<close> as it was, and the field
  contributes no message. Bound from \<^verbatim>\<open>{"--Flag": nil}\<close>, a \<^verbatim>\<open>bool\<close> field that was true
  becomes false and \<^verbatim>\<open>Struct\<close> returns nil.
\<close>

theorem nil_value_sets_zero:
  assumes "settable f = Returns True"
    and "findVal L (Name f) from formats = Returns (Inr NilI)"
  shows "bind_field L from formats f errstr = Returns (f\<lparr>Value := Zero L (Type f)\<rparr>, errstr)
         \<and> field_msgs L from formats f = []"
  using assms by (simp add: bind_field_nil field_msgs_def)

theorem nil_value_sets_zero_witness:
  "settable \<lparr>Name = ''Flag'', Type = TBool, CanSet = True, Value = (VBool True :: decimal val)\<rparr> = Returns True
   \<and> findVal example_lib ''Flag'' [''--Flag'' \<mapsto> NilI] [''--%s''] = Returns (Inr NilI)
   \<and> bind_field example_lib [''--Flag'' \<mapsto> NilI] [''--%s'']
        \<lparr>Name = ''Flag'', Type = TBool, CanSet = True, Value = VBool True\<rparr> [] =
       Returns (\<lparr>Name = ''Flag'', Type = TBool, CanSet = True, Value = VBool False\<rparr>, [])
   \<and> Struct example_lib [\<lparr>Name = ''Flag'', Type = TBool, CanSet = True, Value = VBool True\<rparr>]
        [''--Flag'' \<mapsto> NilI] [''--%s''] =
       Returns ([\<lparr>Name = ''Flag'', Type = TBool, CanSet = True, Value = VBool False\<rparr>], None)"
proof -
  let ?f = "\<lparr>Name = ''Flag'', Type = TBool, CanSet = True, Value = (VBool True :: decimal val)\<rparr>"
  let ?M = "[''--Flag'' \<mapsto> (NilI :: decimal iface)]"
  have a: "settable ?f = Returns True" by (simp add: settable_def)
  have b: "findVal example_lib (Name ?f) ?M [''--%s''] = Returns (Inr NilI)"
    by (simp add: findVal_def example_lib_def)
  have c: "bind_field example_lib ?M [''--%s''] ?f [] = Returns (?f\<lparr>Value := Zero example_lib (Type ?f)\<rparr>, [])"
    using nil_value_sets_zero [OF a b, of "[]"] by (rule conjunct1)
  have d: "bind_field example_lib ?M [''--%s''] ?f [] =
             Returns (\<lparr>Name = ''Flag'', Type = TBool, CanSet = True, Value = VBool False\<rparr>, [])"
    using c by simp
  have e: "Struct example_lib [?f] ?M [''--%s''] =
       Returns ([\<lparr>Name = ''Flag'', Type = TBool, CanSet = True, Value = VBool False\<rparr>], None)"
    by (simp add: Struct_def d)
  have b': "findVal example_lib ''Flag'' ?M [''--%s''] = Returns (Inr NilI)"
    using b by simp
  from a b' d e show ?thesis by blast
qed

section \<open>A slice bound to a field that is not a slice\<close>

text \<open>
  C6, as stated, asks that the error for a slice of the wrong length name the field and the
  length of the source. The message names the field only: it is the same text for a source of
  two elements and for an empty one, and holds no digit.
\<close>

theorem multi_value_message_omits_length:
  "bind_field example_lib [''--X'' \<mapsto> Iface (VSlice TString [VString ''a'', VString ''b''])] [''--%s'']
     \<lparr>Name = ''X'', Type = TString, CanSet = True, Value = VString ''prior''\<rparr> [] =
     Returns (\<lparr>Name = ''X'', Type = TString, CanSet = True, Value = VString ''prior''\<rparr>,
              ''Coerce: can't coerce X from multi-value slice'' @ [CHR 0x0A])
   \<and> bind_field example_lib [''--X'' \<mapsto> Iface (VSlice TString [])] [''--%s'']
     \<lparr>Name = ''X'', Type = TString, CanSet = True, Value = VString ''prior''\<rparr> [] =
     Returns (\<lparr>Name = ''X'', Type = TString, CanSet = True, Value = VString ''prior''\<rparr>,
              ''Coerce: can't coerce X from multi-value slice'' @ [CHR 0x0A])
   \<and> CHR ''2'' \<notin> set ''Coerce: can't coerce X from multi-value slice''
   \<and> CHR ''0'' \<notin> set ''Coerce: can't coerce X from multi-value slice''"
  by (simp add: struct_defs example_defs)

text \<open>
  C6, amended. For a field that can be set, whose declared type is not a slice and whose
  name resolves to a slice: a slice of exactly one element is unwrapped and its element
  coerced into the field by \<^verbatim>\<open>unmarshall\<close> (the field takes the coerced value, or keeps
  its value and the error message is accumulated, or keeps its value as the call panics
  where \<^verbatim>\<open>unmarshall\<close> does); a slice of no element or of more than
  one leaves the field as it was and accumulates the message
  \<^verbatim>\<open>Coerce: can't coerce <field> from multi-value slice\<close>, which names the field.
\<close>

theorem slice_into_scalar_field:
  assumes "settable f = Returns True"
    and "findVal L (Name f) from formats = Returns (Inr (Iface (VSlice st vs)))"
    and "Kind (Type f) \<noteq> KSlice"
  shows "(length vs = 1 \<longrightarrow>
            bind_field L from formats f errstr =
              (case unmarshall L (Type f) (hd vs) of
                 PanicsWith _ \<Rightarrow> PanicsWith f
               | Returns (Inl err) \<Rightarrow> Returns (f, errstr @ Error L err @ [CHR 0x0A])
               | Returns (Inr w) \<Rightarrow> Returns (f\<lparr>Value := w\<rparr>, errstr)))
         \<and> (length vs \<noteq> 1 \<longrightarrow>
            bind_field L from formats f errstr =
              Returns (f, errstr @ ''Coerce: can't coerce '' @ Name f @
                          '' from multi-value slice'' @ [CHR 0x0A]))"
proof -
  have "length vs = 1 \<Longrightarrow> vs ! 0 = hd vs"
    by (cases vs) simp_all
  then show ?thesis
    using bind_field_scalar [OF assms, of errstr]
    by (simp add: unmarshall_field_def)
qed

theorem slice_into_scalar_field_witness:
  "settable \<lparr>Name = ''X'', Type = TString, CanSet = True, Value = (VString ''prior'' :: decimal val)\<rparr> = Returns True
   \<and> findVal example_lib ''X'' [''--X'' \<mapsto> Iface (VSlice TString [VString ''a''])] [''--%s''] =
       Returns (Inr (Iface (VSlice TString [VString ''a''])))
   \<and> findVal example_lib ''X'' [''--X'' \<mapsto> Iface (VSlice TString [VString ''a'', VString ''b''])] [''--%s''] =
       Returns (Inr (Iface (VSlice TString [VString ''a'', VString ''b''])))
   \<and> Kind TString \<noteq> KSlice
   \<and> bind_field example_lib [''--X'' \<mapsto> Iface (VSlice TString [VString ''a''])] [''--%s'']
        \<lparr>Name = ''X'', Type = TString, CanSet = True, Value = VString ''prior''\<rparr> [] =
       Returns (\<lparr>Name = ''X'', Type = TString, CanSet = True, Value = VString ''a''\<rparr>, [])
   \<and> bind_field example_lib [''--X'' \<mapsto> Iface (VSlice TString [VString ''a'', VString ''b''])] [''--%s'']
        \<lparr>Name = ''X'', Type = TString, CanSet = True, Value = VString ''prior''\<rparr> [] =
       Returns (\<lparr>Name = ''X'', Type = TString, CanSet = True, Value = VString ''prior''\<rparr>,
                ''Coerce: can't coerce X from multi-value slice'' @ [CHR 0x0A])"
proof -
  let ?f = "\<lparr>Name = ''X'', Type = TString, CanSet = True, Value = (VString ''prior'' :: decimal val)\<rparr>"
  let ?M1 = "[''--X'' \<mapsto> (Iface (VSlice TString [VString ''a'']) :: decimal iface)]"
  let ?M2 = "[''--X'' \<mapsto> (Iface (VSlice TString [VString ''a'', VString ''b'']) :: decimal iface)]"
  have a: "settable ?f = Returns True" by (simp add: settable_def)
  have b1: "findVal example_lib (Name ?f) ?M1 [''--%s''] = Returns (Inr (Iface (VSlice TString [VString ''a''])))"
    by (simp add: findVal_def example_lib_def)
  have b2: "findVal example_lib (Name ?f) ?M2 [''--%s''] =
              Returns (Inr (Iface (VSlice TString [VString ''a'', VString ''b''])))"
    by (simp add: findVal_def example_lib_def)
  have c: "Kind (Type ?f) \<noteq> KSlice" by simp
  have r1: "bind_field example_lib ?M1 [''--%s''] ?f [] =
              Returns (\<lparr>Name = ''X'', Type = TString, CanSet = True, Value = VString ''a''\<rparr>, [])"
    using slice_into_scalar_field [OF a b1 c, of "[]"]
    by (simp add: unmarshall_def AssignableTo_def)
  have r2: "bind_field example_lib ?M2 [''--%s''] ?f [] =
              Returns (?f, ''Coerce: can't coerce X from multi-value slice'' @ [CHR 0x0A])"
    using slice_into_scalar_field [OF a b2 c, of "[]"] by simp
  have b1': "findVal example_lib ''X'' ?M1 [''--%s''] = Returns (Inr (Iface (VSlice TString [VString ''a''])))"
    using b1 by simp
  have b2': "findVal example_lib ''X'' ?M2 [''--%s''] =
              Returns (Inr (Iface (VSlice TString [VString ''a'', VString ''b''])))"
    using b2 by simp
  have c': "Kind TString \<noteq> KSlice" by simp
  from a b1' b2' c' r1 r2 show ?thesis by blast
qed

section \<open>A slice bound to a slice field\<close>

text \<open>
  C10. For a field of slice type that can be set and whose name resolves to a slice:
  whatever value \<open>prior\<close> the field held, and whether the call then returns or panics, the
  loop body leaves in the field a slice \<open>ws\<close> of the source's length. Each slot holds the
  zero value of the element type or the coerced source element of its index; a slot whose
  element was not coerced with success (the coercion failed, or panicked, or was never
  reached because an earlier element panicked) holds the zero value; when no element is
  coerced with success the slice holds zero values only. The prior value is gone in every
  case.
\<close>

theorem slice_field_replaced_by_fresh_slice:
  assumes "settable f = Returns True"
    and "findVal L (Name f) from formats = Returns (Inr (Iface (VSlice st vs)))"
    and "Type f = TSlice et"
  shows "\<exists>ws. left_behind (bind_field L from formats (f\<lparr>Value := prior\<rparr>) errstr) =
                 f\<lparr>Value := VSlice et ws\<rparr>
              \<and> ws = map (coerced_elem L et) (takeWhile (\<lambda>v. unmarshall L et v \<noteq> Panics) vs)
                     @ replicate (length (dropWhile (\<lambda>v. unmarshall L et v \<noteq> Panics) vs)) (Zero L et)
              \<and> length ws = length vs
              \<and> (\<forall>i<length vs. ws ! i = Zero L et \<or> unmarshall L et (vs ! i) = Returns (Inr (ws ! i)))
              \<and> (\<forall>i<length vs. (\<forall>w. unmarshall L et (vs ! i) \<noteq> Returns (Inr w)) \<longrightarrow> ws ! i = Zero L et)
              \<and> ((\<forall>v\<in>set vs. \<forall>w. unmarshall L et v \<noteq> Returns (Inr w)) \<longrightarrow>
                    ws = replicate (length vs) (Zero L et))"
proof -
  let ?np = "\<lambda>v. unmarshall L et v \<noteq> Panics"
  let ?tk = "takeWhile ?np vs"
  let ?dr = "dropWhile ?np vs"
  let ?ws = "map (coerced_elem L et) ?tk @ replicate (length ?dr) (Zero L et)"
  have left: "left_behind (bind_field L from formats (f\<lparr>Value := prior\<rparr>) errstr) =
                f\<lparr>Value := VSlice et ?ws\<rparr>"
    using bind_field_slice_left_behind [of "f\<lparr>Value := prior\<rparr>" L "from" formats st vs et errstr] assms
    by simp
  have len: "length ?ws = length vs"
  proof -
    have "length ?tk + length ?dr = length (?tk @ ?dr)" by (simp only: length_append)
    then show ?thesis by simp
  qed
  have nth: "?ws ! i = coerced_elem L et (vs ! i) \<or> ?ws ! i = Zero L et" if "i < length vs" for i
  proof (cases "i < length ?tk")
    case True
    then have "?ws ! i = coerced_elem L et (?tk ! i)" by (simp add: nth_append)
    also have "?tk ! i = vs ! i" using True by (rule takeWhile_nth)
    finally show ?thesis by simp
  next
    case False
    with that len have "i - length ?tk < length ?dr" by simp
    with False show ?thesis by (simp add: nth_append)
  qed
  have a: "\<forall>i<length vs. ?ws ! i = Zero L et \<or> unmarshall L et (vs ! i) = Returns (Inr (?ws ! i))"
    using nth coerced_elem_cases [of L et] by metis
  have b: "\<forall>i<length vs. (\<forall>w. unmarshall L et (vs ! i) \<noteq> Returns (Inr w)) \<longrightarrow> ?ws ! i = Zero L et"
    using nth coerced_elem_not_done [of L et] by metis
  have c: "?ws = replicate (length vs) (Zero L et)"
    if "\<forall>v\<in>set vs. \<forall>w. unmarshall L et v \<noteq> Returns (Inr w)"
  proof (rule nth_equalityI)
    show "length ?ws = length (replicate (length vs) (Zero L et))" using len by simp
  next
    fix i assume "i < length ?ws"
    then have i: "i < length vs" using len by simp
    then have "vs ! i \<in> set vs" by simp
    with that have "\<forall>w. unmarshall L et (vs ! i) \<noteq> Returns (Inr w)" by blast
    with b i have "?ws ! i = Zero L et" by blast
    with i show "?ws ! i = replicate (length vs) (Zero L et) ! i" by simp
  qed
  from left len a b c show ?thesis by blast
qed

theorem slice_field_replaced_by_fresh_slice_witness:
  "settable \<lparr>Name = ''ints'', Type = TSlice (TInt IntK), CanSet = False,
             Value = (VSlice (TInt IntK) [VInt IntK 7] :: decimal val)\<rparr> = Returns True
   \<and> findVal example_lib ''ints'' [''ints'' \<mapsto> Iface (VSlice TString [VString ''x'', VString ''y''])] [] =
       Returns (Inr (Iface (VSlice TString [VString ''x'', VString ''y''])))
   \<and> left_behind
        (bind_field example_lib [''ints'' \<mapsto> Iface (VSlice TString [VString ''x'', VString ''y''])] []
           \<lparr>Name = ''ints'', Type = TSlice (TInt IntK), CanSet = False, Value = VSlice (TInt IntK) [VInt IntK 7]\<rparr> []) =
       \<lparr>Name = ''ints'', Type = TSlice (TInt IntK), CanSet = False,
          Value = VSlice (TInt IntK) [VInt IntK 0, VInt IntK 0]\<rparr>
   \<and> findVal example_lib ''ints''
        [''ints'' \<mapsto> Iface (VSlice TString [VString ''5'', VString '''', VString ''7''])] [] =
       Returns (Inr (Iface (VSlice TString [VString ''5'', VString '''', VString ''7''])))
   \<and> left_behind
        (bind_field example_lib
           [''ints'' \<mapsto> Iface (VSlice TString [VString ''5'', VString '''', VString ''7''])] []
           \<lparr>Name = ''ints'', Type = TSlice (TInt IntK), CanSet = False, Value = VSlice (TInt IntK) [VInt IntK 7]\<rparr> []) =
       \<lparr>Name = ''ints'', Type = TSlice (TInt IntK), CanSet = False,
          Value = VSlice (TInt IntK) [VInt IntK 5, VInt IntK 0, VInt IntK 0]\<rparr>
   \<and> bind_field example_lib
           [''ints'' \<mapsto> Iface (VSlice TString [VString ''5'', VString '''', VString ''7''])] []
           \<lparr>Name = ''ints'', Type = TSlice (TInt IntK), CanSet = False, Value = VSlice (TInt IntK) [VInt IntK 7]\<rparr> [] =
       PanicsWith \<lparr>Name = ''ints'', Type = TSlice (TInt IntK), CanSet = False,
          Value = VSlice (TInt IntK) [VInt IntK 5, VInt IntK 0, VInt IntK 0]\<rparr>"
proof -
  let ?f = "\<lparr>Name = ''ints'', Type = TSlice (TInt IntK), CanSet = False,
              Value = (VSlice (TInt IntK) [VInt IntK 7] :: decimal val)\<rparr>"
  let ?vs1 = "[VString ''x'', VString ''y''] :: decimal val list"
  let ?vs2 = "[VString ''5'', VString '''', VString ''7''] :: decimal val list"
  let ?M1 = "[''ints'' \<mapsto> Iface (VSlice TString ?vs1)]"
  let ?M2 = "[''ints'' \<mapsto> Iface (VSlice TString ?vs2)]"
  have a: "settable ?f = Returns True" by (simp add: settable_def is_own_lower_def)
  have b1: "findVal example_lib (Name ?f) ?M1 [] = Returns (Inr (Iface (VSlice TString ?vs1)))"
    by (simp add: findVal_def example_lib_def)
  have b2: "findVal example_lib (Name ?f) ?M2 [] = Returns (Inr (Iface (VSlice TString ?vs2)))"
    by (simp add: findVal_def example_lib_def)
  have c: "Type ?f = TSlice (TInt IntK)" by simp
  have ux: "unmarshall example_lib (TInt IntK) (VString ''x'') = Returns (Inl (NumError ''ParseInt'' ''x'' ErrSyntax))"
    by (simp add: parse_defs unmarshall_defs)
  have uy: "unmarshall example_lib (TInt IntK) (VString ''y'') = Returns (Inl (NumError ''ParseInt'' ''y'' ErrSyntax))"
    by (simp add: parse_defs unmarshall_defs)
  have u5: "unmarshall example_lib (TInt IntK) (VString ''5'') = Returns (Inr (VInt IntK 5))"
    by (simp add: parse_defs unmarshall_defs)
  have ue: "unmarshall example_lib (TInt IntK) (VString '''') = Panics"
    by (simp add: parse_defs unmarshall_defs)
  have l1: "left_behind (bind_field example_lib ?M1 [] ?f []) =
              \<lparr>Name = ''ints'', Type = TSlice (TInt IntK), CanSet = False,
                 Value = VSlice (TInt IntK) [VInt IntK 0, VInt IntK 0]\<rparr>"
    using slice_field_replaced_by_fresh_slice [OF a b1 c, of "VSlice (TInt IntK) [VInt IntK 7]" "[]"]
    by (simp add: ux uy coerced_elem_def)
  have l2: "left_behind (bind_field example_lib ?M2 [] ?f []) =
              \<lparr>Name = ''ints'', Type = TSlice (TInt IntK), CanSet = False,
                 Value = VSlice (TInt IntK) [VInt IntK 5, VInt IntK 0, VInt IntK 0]\<rparr>"
    using slice_field_replaced_by_fresh_slice [OF a b2 c, of "VSlice (TInt IntK) [VInt IntK 7]" "[]"]
    by (simp add: u5 ue coerced_elem_def)
  have p: "bind_field example_lib ?M2 [] ?f [] =
             PanicsWith \<lparr>Name = ''ints'', Type = TSlice (TInt IntK), CanSet = False,
                Value = VSlice (TInt IntK) [VInt IntK 5, VInt IntK 0, VInt IntK 0]\<rparr>"
    using a b2 by (simp add: bind_field_def Value_AssignableTo_def u5 ue)
  have b1': "findVal example_lib ''ints'' ?M1 [] = Returns (Inr (Iface (VSlice TString ?vs1)))"
    using b1 by simp
  have b2': "findVal example_lib ''ints'' ?M2 [] = Returns (Inr (Iface (VSlice TString ?vs2)))"
    using b2 by simp
  from a b1' l1 b2' l2 p show ?thesis by blast
qed

text \<open>
  C3. Binding a slice to a slice field does not give the coercion of element \<open>i\<close> at index
  \<open>i\<close> for every source: an element that makes \<^verbatim>\<open>unmarshall\<close> panic (the empty string
  for an integer element type, through \<^verbatim>\<open>getBytes\<close>) ends the loop and the call, and the
  elements after it are never coerced. Bound from the strings \<open>""\<close> and \<open>"5"\<close>, a slice
  of \<^verbatim>\<open>int\<close> is left as 0, 0 by a call that panics, although \<open>"5"\<close> coerces to 5. (When no
  element panics the length and the order are kept, and the example of the documentation
  gives 5, 12, 512: lemmas \<open>slice_to_slice_without_panic\<close>, \<open>doc_example_for_any_library\<close>.)
\<close>

theorem panic_leaves_later_elements_uncoerced:
  "unmarshall example_lib (TInt IntK) (VString ''5'') = Returns (Inr (VInt IntK 5))
   \<and> unmarshall example_lib (TInt IntK) (VString '''') = Panics
   \<and> bind_field example_lib [''ints'' \<mapsto> Iface (VSlice TString [VString '''', VString ''5''])] []
        \<lparr>Name = ''ints'', Type = TSlice (TInt IntK), CanSet = True, Value = VSlice (TInt IntK) []\<rparr> [] =
       PanicsWith \<lparr>Name = ''ints'', Type = TSlice (TInt IntK), CanSet = True,
                    Value = VSlice (TInt IntK) [VInt IntK 0, VInt IntK 0]\<rparr>
   \<and> Struct example_lib
        [\<lparr>Name = ''ints'', Type = TSlice (TInt IntK), CanSet = True, Value = VSlice (TInt IntK) []\<rparr>]
        [''ints'' \<mapsto> Iface (VSlice TString [VString '''', VString ''5''])] [] =
       PanicsWith [\<lparr>Name = ''ints'', Type = TSlice (TInt IntK), CanSet = True,
                     Value = VSlice (TInt IntK) [VInt IntK 0, VInt IntK 0]\<rparr>]"
  by (simp add: struct_defs example_defs parse_defs unmarshall_defs)

section \<open>The error that Struct returns\<close>

text \<open>
  C4. A call of \<^verbatim>\<open>Struct\<close> does not always return nil when no message was accumulated, nor
  an error holding the messages when some were: bound from \<^verbatim>\<open>{"N": ""}\<close>, the field
  \<^verbatim>\<open>N int\<close> has no message and the call panics (in \<^verbatim>\<open>getBytes\<close>); with a field
  \<^verbatim>\<open>Name\<close> before it that is not in the map, the message of \<^verbatim>\<open>Name\<close> has been accumulated
  when the call panics, and is returned to nobody. (A call in which no field panics returns
  what the claim says: lemmas \<open>Struct_returns_without_panic\<close>, \<open>Struct_aggregates\<close>,
  \<open>aggregate_contains\<close>.)
\<close>

theorem panic_instead_of_aggregated_error:
  "field_msgs example_lib [''N'' \<mapsto> Iface (VString '''')] []
     \<lparr>Name = ''N'', Type = TInt IntK, CanSet = True, Value = VInt IntK 3\<rparr> = []
   \<and> Struct example_lib [\<lparr>Name = ''N'', Type = TInt IntK, CanSet = True, Value = VInt IntK 3\<rparr>]
        [''N'' \<mapsto> Iface (VString '''')] [] =
       PanicsWith [\<lparr>Name = ''N'', Type = TInt IntK, CanSet = True, Value = VInt IntK 3\<rparr>]
   \<and> field_msgs example_lib [''N'' \<mapsto> Iface (VString '''')] []
        \<lparr>Name = ''Name'', Type = TString, CanSet = True, Value = VString ''prior''\<rparr> =
       [''Coerce: [Nam] not found in map'']
   \<and> Struct example_lib
        [\<lparr>Name = ''Name'', Type = TString, CanSet = True, Value = VString ''prior''\<rparr>,
         \<lparr>Name = ''N'', Type = TInt IntK, CanSet = True, Value = VInt IntK 3\<rparr>]
        [''N'' \<mapsto> Iface (VString '''')] [] =
       PanicsWith
        [\<lparr>Name = ''Name'', Type = TString, CanSet = True, Value = VString ''prior''\<rparr>,
         \<lparr>Name = ''N'', Type = TInt IntK, CanSet = True, Value = VInt IntK 3\<rparr>]"
  by (simp add: struct_defs field_msgs_def example_defs parse_defs unmarshall_defs)

end
